theory Spec2Isabelle
  imports Complex_Main "HOL-Library.Char_ord" "HOL-Library.List_Lexorder" "HOL-Library.Sublist"
begin

section \<open>Conventions of the embedding\<close>

text \<open>
  The development embeds \<^verbatim>\<open>ai_cost_tracker\<close> (modules \<^verbatim>\<open>pricing.py\<close>, \<^verbatim>\<open>models.py\<close>,
  \<^verbatim>\<open>storage.py\<close>, \<^verbatim>\<open>tracker.py\<close>).

  \<^item> A Python \<^verbatim>\<open>str\<close> is a \<open>string\<close>; a \<open>char\<close> stands for a code point below 256, and
    \<^verbatim>\<open>str.isspace\<close> and \<^verbatim>\<open>str.lower\<close> are given on that range as CPython computes them.
  \<^item> A Python \<^verbatim>\<open>float\<close> is a \<open>real\<close>: the arithmetic is the exact one, the rounding
    and the range of IEEE doubles are not represented.
  \<^item> A Python \<^verbatim>\<open>int\<close> is an \<open>int\<close>.
  \<^item> An exception is a value of type \<open>error\<close>, carrying the message of the source; a function
    that may raise returns \<open>error + 'a\<close>.
  \<^item> A \<^verbatim>\<open>dict\<close> is an association list in insertion order, read with \<open>map_of\<close>.
\<close>

datatype error =
    ValueError string
  | KeyError string
  | OverflowError string
  | OperationalError string

section \<open>pricing.py\<close>

type_synonym rates = "real \<times> real"

text \<open>\<^verbatim>\<open>PRICING\<close>: USD per million tokens, (input, output), in the order of the source.\<close>

definition PRICING :: "(string \<times> rates) list" where
  "PRICING =
    [(''gpt-4'', (30, 60)),
     (''gpt-4-turbo'', (10, 30)),
     (''gpt-4o'', (5, 15)),
     (''gpt-4o-mini'', (0.15, 0.6)),
     (''gpt-3.5-turbo'', (0.5, 1.5)),
     (''claude-opus-4'', (15, 75)),
     (''claude-sonnet-4'', (3, 15)),
     (''claude-sonnet-3.5'', (3, 15)),
     (''claude-haiku-3.5'', (0.8, 4))]"

text \<open>\<^verbatim>\<open>_ALIASES\<close>: alias prefix to canonical key.\<close>

definition ALIASES :: "(string \<times> string) list" where
  "ALIASES =
    [(''claude-3-5-sonnet'', ''claude-sonnet-3.5''),
     (''claude-3-5-haiku'', ''claude-haiku-3.5''),
     (''claude-3-opus'', ''claude-opus-4'')]"

subsection \<open>The string methods the resolver calls\<close>

text \<open>\<^verbatim>\<open>str.isspace\<close> on code points below 256.\<close>

definition isspace :: "char \<Rightarrow> bool" where
  "isspace c = ((of_char c :: nat) \<in> {9, 10, 11, 12, 13, 28, 29, 30, 31, 32, 133, 160})"

text \<open>The code points below 256 that \<^verbatim>\<open>str.lower\<close> changes: A to Z, and the capital
  letters of Latin-1 (192 to 222 without the multiplication sign 215).\<close>

definition is_upper_char :: "char \<Rightarrow> bool" where
  "is_upper_char c =
     (let n = (of_char c :: nat)
      in (65 \<le> n \<and> n \<le> 90) \<or> (192 \<le> n \<and> n \<le> 222 \<and> n \<noteq> 215))"

text \<open>Each of them is lowered by adding 32, which sets bit 5.\<close>

fun lower_char :: "char \<Rightarrow> char" where
  "lower_char (Char b0 b1 b2 b3 b4 b5 b6 b7) =
     (if is_upper_char (Char b0 b1 b2 b3 b4 b5 b6 b7) then Char b0 b1 b2 b3 b4 True b6 b7
      else Char b0 b1 b2 b3 b4 b5 b6 b7)"

definition strip :: "string \<Rightarrow> string" where
  "strip s = rev (dropWhile isspace (rev (dropWhile isspace s)))"

definition lower :: "string \<Rightarrow> string" where
  "lower s = map lower_char s"

text \<open>\<^verbatim>\<open>s.replace(old, new)\<close> for one-character \<^verbatim>\<open>old\<close> and \<^verbatim>\<open>new\<close>.\<close>

definition replace_char :: "char \<Rightarrow> char \<Rightarrow> string \<Rightarrow> string" where
  "replace_char old new s = map (\<lambda>c. if c = old then new else c) s"

text \<open>\<^verbatim>\<open>s.startswith(p)\<close>.\<close>

definition startswith :: "string \<Rightarrow> string \<Rightarrow> bool" where
  "startswith s p = prefix p s"

text \<open>\<^verbatim>\<open>sub in s\<close>: \<open>sub\<close> occurs in \<open>s\<close> as a contiguous block.\<close>

primrec str_contains :: "string \<Rightarrow> string \<Rightarrow> bool" where
  "str_contains [] sub = (sub = [])"
| "str_contains (c # cs) sub = (prefix sub (c # cs) \<or> str_contains cs sub)"

text \<open>\<^verbatim>\<open>sorted(xs, key=key, reverse=True)\<close>: CPython reverses the list, sorts it stably in
  ascending order and reverses the result, so equal keys keep the order they had in \<open>xs\<close>.\<close>

definition sorted_reverse :: "('a \<Rightarrow> nat) \<Rightarrow> 'a list \<Rightarrow> 'a list" where
  "sorted_reverse key xs = rev (sort_key key (rev xs))"

subsection \<open>The resolver\<close>

definition normalize_model_name :: "string \<Rightarrow> string" where
  "normalize_model_name m = replace_char (CHR ''_'') (CHR ''-'') (lower (strip m))"

text \<open>The loop over \<^verbatim>\<open>_ALIASES.items()\<close>: the first alias prefix the name starts with.\<close>

fun alias_scan :: "(string \<times> string) list \<Rightarrow> string \<Rightarrow> string option" where
  "alias_scan [] normalized = None"
| "alias_scan ((alias_prefix, canonical) # rest) normalized =
     (if startswith normalized alias_prefix then Some canonical
      else alias_scan rest normalized)"

definition keys_by_specificity :: "string list" where
  "keys_by_specificity = sorted_reverse length (map fst PRICING)"

text \<open>The loop over \<^verbatim>\<open>keys_by_specificity\<close>.\<close>

fun key_scan :: "string list \<Rightarrow> string \<Rightarrow> string option" where
  "key_scan [] normalized = None"
| "key_scan (key # rest) normalized =
     (if startswith normalized key \<or> str_contains normalized key then Some key
      else key_scan rest normalized)"

definition resolve_model_key :: "string \<Rightarrow> error + string" where
  "resolve_model_key m =
     (let normalized = normalize_model_name m
      in if normalized \<in> set (map fst PRICING) then Inr normalized
         else (case alias_scan ALIASES normalized of
                 Some canonical \<Rightarrow> Inr canonical
               | None \<Rightarrow>
                   (case key_scan keys_by_specificity normalized of
                      Some key \<Rightarrow> Inr key
                    | None \<Rightarrow> Inl (ValueError (''Unsupported model for pricing: '' @ m)))))"

text \<open>\<^verbatim>\<open>PRICING[key]\<close> raises \<^verbatim>\<open>KeyError\<close> on a key the table lacks.\<close>

definition get_model_pricing :: "string \<Rightarrow> error + rates" where
  "get_model_pricing m =
     (case resolve_model_key m of
        Inl e \<Rightarrow> Inl e
      | Inr key \<Rightarrow>
          (case map_of PRICING key of
             None \<Rightarrow> Inl (KeyError key)
           | Some r \<Rightarrow> Inr r))"

definition calculate_cost :: "string \<Rightarrow> int \<Rightarrow> int \<Rightarrow> error + real" where
  "calculate_cost m n_in n_out =
     (if n_in < 0 \<or> n_out < 0 then Inl (ValueError ''Token counts must be non-negative'')
      else (case get_model_pricing m of
              Inl e \<Rightarrow> Inl e
            | Inr (input_per_million, output_per_million) \<Rightarrow>
                (let input_cost = (real_of_int n_in / 1000000) * input_per_million;
                     output_cost = (real_of_int n_out / 1000000) * output_per_million
                 in Inr (input_cost + output_cost))))"

subsection \<open>The resolver as the specification words it\<close>

text \<open>
  The precedence of the specification, section 4.1: normalise; an exact canonical key wins;
  else the first alias prefix the name starts with; else the first key, longest first, that
  the name starts with or contains; else the failure the specification calls
  \<open>UnsupportedModel\<close>, which the source raises as a \<^verbatim>\<open>ValueError\<close> with this message.
\<close>

definition UnsupportedModel :: "string \<Rightarrow> error" where
  "UnsupportedModel m = ValueError (''Unsupported model for pricing: '' @ m)"


section \<open>models.py\<close>

text \<open>
  \<^verbatim>\<open>CostLog\<close>. The timestamp is carried as the text \<^verbatim>\<open>datetime.isoformat()\<close> gives,
  which is what the table stores and what the queries compare; the values of the metadata
  dictionary are carried as text.
\<close>

record CostLog =
  user_id :: string
  feature :: string
  model :: string
  tokens_in :: int
  tokens_out :: int
  cost_usd :: real
  latency_ms :: int
  timestamp :: string
  org_id :: string
  metadata :: "(string \<times> string) list"

section \<open>storage.py\<close>

subsection \<open>The database behind the connection\<close>

text \<open>
  The SQL the module sends to SQLite is modelled by what SQLite does with it. A database
  holds the table \<^verbatim>\<open>cost_logs\<close>, if it was created, as the list of its rows in
  insertion order, the names of its indexes, and the counter of \<^verbatim>\<open>AUTOINCREMENT\<close> (the
  largest id handed out so far). The lock is not modelled: calls run one after another.
\<close>

record row =
  row_id :: int
  entry :: CostLog

record database =
  cost_logs :: "row list option"
  indexes :: "string list"
  sequence :: int

definition empty_database :: database where
  "empty_database = \<lparr>cost_logs = None, indexes = [], sequence = 0\<rparr>"

record SQLiteStorage =
  db_path :: string
  conn :: database

text \<open>\<^verbatim>\<open>CREATE TABLE IF NOT EXISTS cost_logs (...)\<close>.\<close>

definition create_table_if_not_exists :: "database \<Rightarrow> database" where
  "create_table_if_not_exists db =
     (case cost_logs db of None \<Rightarrow> db\<lparr>cost_logs := Some []\<rparr> | Some rows \<Rightarrow> db)"

text \<open>\<^verbatim>\<open>CREATE INDEX IF NOT EXISTS name ON cost_logs(...)\<close>.\<close>

definition create_index_if_not_exists :: "string \<Rightarrow> database \<Rightarrow> database" where
  "create_index_if_not_exists name db =
     (if name \<in> set (indexes db) then db else db\<lparr>indexes := indexes db @ [name]\<rparr>)"

definition init_db :: "SQLiteStorage \<Rightarrow> SQLiteStorage" where
  "init_db self =
     self\<lparr>conn :=
       create_index_if_not_exists ''idx_cost_logs_org_id''
         (create_index_if_not_exists ''idx_cost_logs_timestamp''
           (create_index_if_not_exists ''idx_cost_logs_feature''
             (create_index_if_not_exists ''idx_cost_logs_user_id''
               (create_table_if_not_exists (conn self)))))\<rparr>"

text \<open>\<^verbatim>\<open>SQLiteStorage.__init__\<close>: \<open>file\<close> is the database the file at \<open>path\<close> holds when
  it is opened (\<open>empty_database\<close> for a file that did not exist).\<close>

definition SQLiteStorage_init :: "string \<Rightarrow> database \<Rightarrow> SQLiteStorage" where
  "SQLiteStorage_init path file = init_db \<lparr>db_path = path, conn = file\<rparr>"

text \<open>The states of the specification, section 4.3: the store is ready when the table and
  the four indexes exist.\<close>

definition ready :: "SQLiteStorage \<Rightarrow> bool" where
  "ready self =
     (cost_logs (conn self) \<noteq> None \<and>
      list_all (\<lambda>name. name \<in> set (indexes (conn self)))
        [''idx_cost_logs_user_id'', ''idx_cost_logs_feature'',
         ''idx_cost_logs_timestamp'', ''idx_cost_logs_org_id''])"

text \<open>An \<^verbatim>\<open>INTEGER\<close> of SQLite has 64 bits; the \<^verbatim>\<open>sqlite3\<close> module raises
  \<^verbatim>\<open>OverflowError\<close> when it binds an \<^verbatim>\<open>int\<close> outside that range.\<close>

definition fits_int64 :: "int \<Rightarrow> bool" where
  "fits_int64 n = (- (2 ^ 63) \<le> n \<and> n < 2 ^ 63)"

definition no_such_table :: error where
  "no_such_table = OperationalError ''no such table: cost_logs''"

definition int_too_large :: error where
  "int_too_large = OverflowError ''Python int too large to convert to SQLite INTEGER''"

text \<open>The id \<^verbatim>\<open>AUTOINCREMENT\<close> gives the next row: one more than the largest id of the
  table and of the counter.\<close>

definition next_id :: "row list \<Rightarrow> int \<Rightarrow> int" where
  "next_id rows s = foldr max (map row_id rows) s + 1"

text \<open>\<^verbatim>\<open>SQLiteStorage.log\<close>: the statement is prepared (the table must exist), the ten
  parameters are bound, the row is inserted and committed.\<close>

definition log_row :: "SQLiteStorage \<Rightarrow> CostLog \<Rightarrow> error + SQLiteStorage" where
  "log_row self cost_log =
     (case cost_logs (conn self) of
        None \<Rightarrow> Inl no_such_table
      | Some rows \<Rightarrow>
          if fits_int64 (tokens_in cost_log) \<and> fits_int64 (tokens_out cost_log) \<and>
             fits_int64 (latency_ms cost_log)
          then (let n = next_id rows (sequence (conn self))
                in Inr (self\<lparr>conn := (conn self)
                     \<lparr>cost_logs := Some (rows @ [\<lparr>row_id = n, entry = cost_log\<rparr>]),
                      sequence := n\<rparr>\<rparr>))
          else Inl int_too_large)"

subsection \<open>Filters and the WHERE clause\<close>

text \<open>A filter dictionary maps names to values; a value is \<^verbatim>\<open>None\<close> or a string.\<close>

datatype pyval = PyNone | PyStr string

type_synonym py_dict = "(string \<times> pyval) list"

text \<open>\<^verbatim>\<open>d.get(k)\<close>: \<^verbatim>\<open>None\<close> for a key the dictionary lacks.\<close>

definition dict_get :: "py_dict \<Rightarrow> string \<Rightarrow> pyval" where
  "dict_get d k = (case map_of d k of None \<Rightarrow> PyNone | Some v \<Rightarrow> v)"

text \<open>One conjunct of the clause with its bound parameter: \<^verbatim>\<open>column = ?\<close>,
  \<^verbatim>\<open>column >= ?\<close>, \<^verbatim>\<open>column <= ?\<close>.\<close>

datatype clause = Eq string string | Ge string string | Le string string

text \<open>The loop over \<^verbatim>\<open>simple_fields\<close>.\<close>

fun simple_clauses :: "string list \<Rightarrow> py_dict \<Rightarrow> clause list" where
  "simple_clauses [] filters = []"
| "simple_clauses (field # rest) filters =
     (case dict_get filters field of
        PyNone \<Rightarrow> simple_clauses rest filters
      | PyStr v \<Rightarrow> Eq field v # simple_clauses rest filters)"

definition simple_fields :: "string list" where
  "simple_fields = [''user_id'', ''feature'', ''org_id'', ''model'']"

text \<open>\<^verbatim>\<open>_build_where_clause\<close>: the conjuncts that \<^verbatim>\<open>' AND '.join\<close> puts after
  \<^verbatim>\<open>WHERE\<close>; the empty list is the empty clause. \<^verbatim>\<open>not filters\<close> holds for \<^verbatim>\<open>None\<close> and
  for the empty dictionary.\<close>

definition build_where_clause :: "py_dict option \<Rightarrow> clause list" where
  "build_where_clause filters =
     (case filters of
        None \<Rightarrow> []
      | Some f \<Rightarrow>
          if f = [] then []
          else simple_clauses simple_fields f
               @ (case dict_get f ''start_time'' of
                    PyNone \<Rightarrow> [] | PyStr v \<Rightarrow> [Ge ''timestamp'' v])
               @ (case dict_get f ''end_time'' of
                    PyNone \<Rightarrow> [] | PyStr v \<Rightarrow> [Le ''timestamp'' v]))"

text \<open>The text columns of \<^verbatim>\<open>cost_logs\<close> that a clause can name.\<close>

definition column :: "string \<Rightarrow> CostLog \<Rightarrow> string" where
  "column name r =
     (if name = ''user_id'' then user_id r
      else if name = ''feature'' then feature r
      else if name = ''org_id'' then org_id r
      else if name = ''model'' then model r
      else if name = ''timestamp'' then timestamp r
      else [])"

text \<open>SQLite compares text byte by byte: the order of \<open>string\<close> is that order.\<close>

fun holds :: "CostLog \<Rightarrow> clause \<Rightarrow> bool" where
  "holds r (Eq c v) = (column c r = v)"
| "holds r (Ge c v) = (column c r \<ge> v)"
| "holds r (Le c v) = (column c r \<le> v)"

text \<open>\<^verbatim>\<open>FROM cost_logs WHERE c1 AND ... AND cn\<close>.\<close>

definition where_rows :: "clause list \<Rightarrow> row list \<Rightarrow> row list" where
  "where_rows clauses rows = filter (\<lambda>r. list_all (holds (entry r)) clauses) rows"

subsection \<open>The aggregate queries\<close>

text \<open>\<^verbatim>\<open>SUM\<close> is \<^verbatim>\<open>NULL\<close> over no rows; \<^verbatim>\<open>COALESCE(x, y)\<close> replaces \<^verbatim>\<open>NULL\<close>.\<close>

definition sql_sum :: "real list \<Rightarrow> real option" where
  "sql_sum xs = (if xs = [] then None else Some (sum_list xs))"

definition coalesce :: "real option \<Rightarrow> real \<Rightarrow> real" where
  "coalesce x y = (case x of None \<Rightarrow> y | Some v \<Rightarrow> v)"

definition get_total_cost :: "SQLiteStorage \<Rightarrow> py_dict option \<Rightarrow> error + real" where
  "get_total_cost self filters =
     (let clauses = build_where_clause filters
      in case cost_logs (conn self) of
           None \<Rightarrow> Inl no_such_table
         | Some rows \<Rightarrow>
             Inr (coalesce (sql_sum (map (\<lambda>r. cost_usd (entry r)) (where_rows clauses rows))) 0))"


text \<open>\<^verbatim>\<open>ORDER BY total DESC\<close>.\<close>

definition order_by_total_desc :: "(string \<times> real \<times> int) list \<Rightarrow> (string \<times> real \<times> int) list" where
  "order_by_total_desc groups = sort_key (\<lambda>g. - fst (snd g)) groups"





subsection \<open>The public operations as state transitions\<close>

text \<open>
  The calls a client can make on a storage object after its construction, and the store each
  leaves behind, whether the call returned or raised. The three queries send a
  \<^verbatim>\<open>SELECT\<close> only; the class has no method that sends \<^verbatim>\<open>UPDATE\<close> or \<^verbatim>\<open>DELETE\<close>.
  \<^verbatim>\<open>close\<close> is left out: it ends the life of the object.
\<close>

datatype operation =
    Log CostLog
  | GetTotalCost "py_dict option"
  | GetTopUsers int "py_dict option"
  | GetTopFeatures int "py_dict option"
  | InitDb

fun store_after :: "SQLiteStorage \<Rightarrow> operation \<Rightarrow> SQLiteStorage" where
  "store_after self (Log cost_log) =
     (case log_row self cost_log of Inl e \<Rightarrow> self | Inr self' \<Rightarrow> self')"
| "store_after self (GetTotalCost filters) = self"
| "store_after self (GetTopUsers limit filters) = self"
| "store_after self (GetTopFeatures limit filters) = self"
| "store_after self InitDb = init_db self"

text \<open>A sequence of calls to \<^verbatim>\<open>log\<close>, a call that raises leaving the store as it was.\<close>

definition log_all :: "SQLiteStorage \<Rightarrow> CostLog list \<Rightarrow> SQLiteStorage" where
  "log_all self cost_logs' = foldl store_after self (map Log cost_logs')"

text \<open>The records \<^verbatim>\<open>log\<close> accepts on a store that has its table.\<close>

definition storable :: "CostLog \<Rightarrow> bool" where
  "storable cost_log =
     (fits_int64 (tokens_in cost_log) \<and> fits_int64 (tokens_out cost_log) \<and>
      fits_int64 (latency_ms cost_log))"

subsection \<open>The filters as the specification words them\<close>

text \<open>
  Section 4.3: a conjunction of independent predicates, exact equality on \<^verbatim>\<open>user_id\<close>,
  \<^verbatim>\<open>feature\<close>, \<^verbatim>\<open>org_id\<close> and \<^verbatim>\<open>model\<close>, and the inclusive bounds \<^verbatim>\<open>start_time\<close> and
  \<^verbatim>\<open>end_time\<close> on the timestamp, each applied only if supplied; no filters match every row.
\<close>

definition supplied :: "py_dict option \<Rightarrow> string \<Rightarrow> string option" where
  "supplied filters name =
     (case filters of
        None \<Rightarrow> None
      | Some f \<Rightarrow> (case dict_get f name of PyNone \<Rightarrow> None | PyStr v \<Rightarrow> Some v))"

definition matches_spec :: "py_dict option \<Rightarrow> CostLog \<Rightarrow> bool" where
  "matches_spec filters r =
     ((case supplied filters ''user_id'' of None \<Rightarrow> True | Some v \<Rightarrow> user_id r = v) \<and>
      (case supplied filters ''feature'' of None \<Rightarrow> True | Some v \<Rightarrow> feature r = v) \<and>
      (case supplied filters ''org_id'' of None \<Rightarrow> True | Some v \<Rightarrow> org_id r = v) \<and>
      (case supplied filters ''model'' of None \<Rightarrow> True | Some v \<Rightarrow> model r = v) \<and>
      (case supplied filters ''start_time'' of None \<Rightarrow> True | Some v \<Rightarrow> v \<le> timestamp r) \<and>
      (case supplied filters ''end_time'' of None \<Rightarrow> True | Some v \<Rightarrow> timestamp r \<le> v))"

section \<open>tracker.py\<close>

text \<open>The module's globals \<^verbatim>\<open>_storage\<close> and \<^verbatim>\<open>_org_id\<close>.\<close>

record tracker =
  tracker_storage :: "SQLiteStorage option"
  tracker_org_id :: string

text \<open>Their values when the module is loaded.\<close>

definition initial_tracker :: tracker where
  "initial_tracker = \<lparr>tracker_storage = None, tracker_org_id = ''default''\<rparr>"

text \<open>\<^verbatim>\<open>init_tracker\<close>: \<open>file\<close> is the database found at \<open>storage_path\<close>.\<close>

definition init_tracker :: "string \<Rightarrow> string \<Rightarrow> database \<Rightarrow> SQLiteStorage \<times> tracker" where
  "init_tracker storage_path org file =
     (let s = SQLiteStorage_init storage_path file
      in (s, \<lparr>tracker_storage = Some s, tracker_org_id = org\<rparr>))"

text \<open>\<^verbatim>\<open>get_storage\<close>: \<open>file\<close> is the database found at \<^verbatim>\<open>ai_cost_tracker.db\<close>, opened only
  when no storage is active.\<close>

definition get_storage :: "database \<Rightarrow> tracker \<Rightarrow> SQLiteStorage \<times> tracker" where
  "get_storage file g =
     (case tracker_storage g of
        None \<Rightarrow>
          (let s = SQLiteStorage_init ''ai_cost_tracker.db'' file
           in (s, g\<lparr>tracker_storage := Some s\<rparr>))
      | Some s \<Rightarrow> (s, g))"

text \<open>\<^verbatim>\<open>x or d\<close> for an optional string or dictionary \<open>x\<close>: \<^verbatim>\<open>None\<close> and the empty value
  are falsy.\<close>

definition or_default :: "'a list option \<Rightarrow> 'a list \<Rightarrow> 'a list" where
  "or_default x d = (case x of None \<Rightarrow> d | Some v \<Rightarrow> if v = [] then d else v)"

text \<open>
  \<^verbatim>\<open>track_manual\<close>. \<open>now\<close> is the text of \<^verbatim>\<open>datetime.now(timezone.utc)\<close>, \<open>file\<close> the
  database \<^verbatim>\<open>get_storage\<close> would open. The storage object is shared with the global, so
  the store after the insertion is written back to it. The result pairs what the call
  returns or raises with the globals after it.
\<close>

definition track_manual ::
  "string \<Rightarrow> database \<Rightarrow> tracker \<Rightarrow> string \<Rightarrow> string \<Rightarrow> string \<Rightarrow> int \<Rightarrow> int \<Rightarrow> int \<Rightarrow>
   (string \<times> string) list option \<Rightarrow> string option \<Rightarrow> (error + CostLog) \<times> tracker" where
  "track_manual now file g uid feat mdl n_in n_out latency md org =
     (if n_in < 0 \<or> n_out < 0
      then (Inl (ValueError ''tokens_in and tokens_out must be non-negative''), g)
      else if latency < 0
      then (Inl (ValueError ''latency_ms must be non-negative''), g)
      else (case calculate_cost mdl n_in n_out of
              Inl e \<Rightarrow> (Inl e, g)
            | Inr cost \<Rightarrow>
                (let e = \<lparr>user_id = uid, feature = feat, model = mdl, tokens_in = n_in,
                          tokens_out = n_out, cost_usd = cost, latency_ms = latency,
                          timestamp = now, org_id = or_default org (tracker_org_id g),
                          metadata = or_default md []\<rparr>;
                     (s, g') = get_storage file g
                 in case log_row s e of
                      Inl err \<Rightarrow> (Inl err, g')
                    | Inr s' \<Rightarrow> (Inr e, g'\<lparr>tracker_storage := Some s'\<rparr>))))"

text \<open>The rows of the active store, if any.\<close>

definition persisted :: "tracker \<Rightarrow> CostLog list" where
  "persisted g =
     (case tracker_storage g of
        None \<Rightarrow> []
      | Some s \<Rightarrow> (case cost_logs (conn s) of None \<Rightarrow> [] | Some rows \<Rightarrow> map entry rows))"

section \<open>The error kinds of the specification\<close>

text \<open>
  Section 7 names the failure on a negative count \<open>InvalidTokenCount\<close>. The source raises
  it as a \<^verbatim>\<open>ValueError\<close> with one of three messages: the first in \<^verbatim>\<open>calculate_cost\<close>,
  the other two in \<^verbatim>\<open>track_manual\<close>.
\<close>

definition InvalidTokenCount :: "error \<Rightarrow> bool" where
  "InvalidTokenCount e =
     (e = ValueError ''Token counts must be non-negative'' \<or>
      e = ValueError ''tokens_in and tokens_out must be non-negative'' \<or>
      e = ValueError ''latency_ms must be non-negative'')"

section \<open>Auxiliary predicates\<close>

text \<open>A name that normalisation leaves as it is: not empty, no whitespace at either end,
  no capital letter, no underscore.\<close>

definition clean :: "string \<Rightarrow> bool" where
  "clean k =
     (k \<noteq> [] \<and> \<not> isspace (hd k) \<and> \<not> isspace (last k) \<and> lower k = k \<and>
      replace_char (CHR ''_'') (CHR ''-'') k = k)"

text \<open>Every storage object is built by \<^verbatim>\<open>__init__\<close>, which creates the table: the
  active storage, if there is one, has it.\<close>

definition tracker_ok :: "tracker \<Rightarrow> bool" where
  "tracker_ok g = (case tracker_storage g of None \<Rightarrow> True | Some s \<Rightarrow> cost_logs (conn s) \<noteq> None)"

section \<open>The rankings as the specification words them\<close>




section \<open>Scenario 3 of the specification\<close>

text \<open>Three records of one organisation, appended to a new store (section 8).\<close>

definition alice_chat :: CostLog where
  "alice_chat =
     \<lparr>user_id = ''alice'', feature = ''chat'', model = ''gpt-4o-mini'', tokens_in = 100,
      tokens_out = 200, cost_usd = 0.0002, latency_ms = 120,
      timestamp = ''2024-05-01T10:00:00+00:00'', org_id = ''org-1'',
      metadata = [(''env'', ''test'')]\<rparr>"

definition bob_summary :: CostLog where
  "bob_summary =
     \<lparr>user_id = ''bob'', feature = ''summary'', model = ''claude-sonnet-3.5'', tokens_in = 300,
      tokens_out = 500, cost_usd = 0.0014, latency_ms = 90,
      timestamp = ''2024-05-01T10:01:00+00:00'', org_id = ''org-1'',
      metadata = [(''env'', ''test'')]\<rparr>"

definition alice_summary :: CostLog where
  "alice_summary =
     \<lparr>user_id = ''alice'', feature = ''summary'', model = ''gpt-4o-mini'', tokens_in = 200,
      tokens_out = 100, cost_usd = 0.00009, latency_ms = 70,
      timestamp = ''2024-05-01T10:02:00+00:00'', org_id = ''org-1'',
      metadata = [(''env'', ''test'')]\<rparr>"

definition scenario_store :: SQLiteStorage where
  "scenario_store =
     log_all (SQLiteStorage_init ''costs.db'' empty_database)
       [alice_chat, bob_summary, alice_summary]"

definition scenario_rows :: "row list" where
  "scenario_rows =
     [\<lparr>row_id = 1, entry = alice_chat\<rparr>, \<lparr>row_id = 2, entry = bob_summary\<rparr>,
      \<lparr>row_id = 3, entry = alice_summary\<rparr>]"

section \<open>Facts about the tables\<close>

lemma keys_by_specificity_eq:
  "keys_by_specificity =
    [''claude-sonnet-3.5'', ''claude-haiku-3.5'', ''claude-sonnet-4'', ''gpt-3.5-turbo'',
     ''claude-opus-4'', ''gpt-4-turbo'', ''gpt-4o-mini'', ''gpt-4o'', ''gpt-4'']"
  by (simp add: keys_by_specificity_def sorted_reverse_def PRICING_def)

lemma keys_set: "set keys_by_specificity = set (map fst PRICING)"
  by (simp add: keys_by_specificity_def sorted_reverse_def)

lemma keys_sorted: "sorted_wrt (\<lambda>a b. length b \<le> length a) keys_by_specificity"
  by (simp add: keys_by_specificity_eq)






section \<open>The string tests and the two scans\<close>

lemma str_contains_sublist: "str_contains s sub = sublist sub s"
  by (induction s) (auto simp: sublist_Cons_right)

lemma startswith_imp_contains: "startswith s p \<Longrightarrow> str_contains s p"
  by (simp add: startswith_def str_contains_sublist)



section \<open>The resolver follows the precedence of the specification\<close>


lemmas resolver_eval =
  get_model_pricing_def resolve_model_key_def normalize_model_name_def strip_def lower_def
  replace_char_def isspace_def is_upper_char_def PRICING_def ALIASES_def keys_by_specificity_eq
  startswith_def UnsupportedModel_def



section \<open>A canonical key with a suffix\<close>

lemma strip_append_clean:
  assumes "k \<noteq> []" "\<not> isspace (hd k)" "\<not> isspace (last k)"
  shows "strip (k @ s) = k @ rev (dropWhile isspace (rev s))"
proof -
  from assms obtain a k' where k: "k = a # k'" and a: "\<not> isspace a"
    by (cases k) auto
  have lead: "dropWhile isspace (k @ s) = k @ s"
    using k a by simp
  have trail: "dropWhile isspace (rev s @ rev k) = dropWhile isspace (rev s) @ rev k"
  proof (cases "\<forall>x\<in>set (rev s). isspace x")
    case True
    then have "dropWhile isspace (rev s @ rev k) = dropWhile isspace (rev k)"
      by (intro dropWhile_append2) simp
    moreover have "dropWhile isspace (rev k) = rev k"
      using assms by (cases "rev k") (auto simp: hd_rev)
    moreover have "dropWhile isspace (rev s) = []"
      using True by simp
    ultimately show ?thesis by simp
  next
    case False
    then obtain x where "x \<in> set (rev s)" "\<not> isspace x" by blast
    then show ?thesis by (rule dropWhile_append1)
  qed
  show ?thesis
    by (simp add: strip_def lead trail)
qed

lemma canonical_keys_clean: "k \<in> set (map fst PRICING) \<Longrightarrow> clean k"
  by (auto simp: PRICING_def clean_def isspace_def lower_def is_upper_char_def replace_char_def)

lemma normalize_suffixed:
  assumes "clean k"
  shows "prefix k (normalize_model_name (k @ s))"
proof -
  have "normalize_model_name (k @ s) =
      replace_char (CHR ''_'') (CHR ''-'') (lower k)
      @ replace_char (CHR ''_'') (CHR ''-'') (lower (rev (dropWhile isspace (rev s))))"
    using assms
    by (simp add: normalize_model_name_def clean_def strip_append_clean lower_def replace_char_def)
  also have "replace_char (CHR ''_'') (CHR ''-'') (lower k) = k"
    using assms by (simp add: clean_def)
  finally show ?thesis by simp
qed

lemma alias_key_apart:
  "k \<in> set (map fst PRICING) \<Longrightarrow> (p, c) \<in> set ALIASES \<Longrightarrow> \<not> prefix p k \<and> \<not> prefix k p"
  by (auto simp: PRICING_def ALIASES_def)

lemma alias_scan_none:
  assumes "k \<in> set (map fst PRICING)" "prefix k n"
  shows "alias_scan ALIASES n = None"
proof -
  have "\<not> startswith n p" if "(p, c) \<in> set ALIASES" for p c
  proof
    assume "startswith n p"
    then have "prefix p n" by (simp add: startswith_def)
    with assms(2) have "prefix p k \<or> prefix k p"
      by (metis prefix_same_cases)
    with alias_key_apart [OF assms(1) that] show False by simp
  qed
  then have "\<And>al. set al \<subseteq> set ALIASES \<Longrightarrow> alias_scan al n = None"
  proof -
    fix al :: "(string \<times> string) list"
    assume "set al \<subseteq> set ALIASES"
    then show "alias_scan al n = None"
      using \<open>\<And>p c. (p, c) \<in> set ALIASES \<Longrightarrow> \<not> startswith n p\<close>
      by (induction al n rule: alias_scan.induct) auto
  qed
  then show ?thesis by simp
qed

lemma key_scan_skip:
  "\<forall>x\<in>set pre. \<not> str_contains n x \<Longrightarrow> key_scan (pre @ rest) n = key_scan rest n"
  by (induction pre) (auto dest: startswith_imp_contains)

lemma str_contains_refl: "str_contains n n"
  by (simp add: str_contains_sublist)

lemma prefix_not_shorter:
  "prefix k n \<Longrightarrow> length n \<le> length k \<Longrightarrow> n = k"
  by (auto simp: prefix_def)

lemma split_at_key:
  "k \<in> set ks \<Longrightarrow> \<exists>rest. ks = takeWhile (\<lambda>x. x \<noteq> k) ks @ k # rest"
  by (induction ks) auto

lemma later_in_sorted:
  assumes "sorted_wrt (\<lambda>a b. length b \<le> length a) ks" "k \<in> set ks" "n \<in> set ks"
    "n \<notin> set (takeWhile (\<lambda>x. x \<noteq> k) ks)"
  shows "length (n :: string) \<le> length k"
proof -
  from split_at_key [OF assms(2)] obtain rest
    where eq: "ks = takeWhile (\<lambda>x. x \<noteq> k) ks @ k # rest" by blast
  from assms(1) have "sorted_wrt (\<lambda>a b. length b \<le> length a) (takeWhile (\<lambda>x. x \<noteq> k) ks @ k # rest)"
    by (subst eq [symmetric])
  then have "\<forall>y\<in>set rest. length y \<le> length k"
    by (simp add: sorted_wrt_append)
  moreover from assms(3) have "n \<in> set (takeWhile (\<lambda>x. x \<noteq> k) ks @ k # rest)"
    by (subst eq [symmetric])
  ultimately show ?thesis using assms(4) by auto
qed

lemma later_key_not_longer:
  assumes "k \<in> set keys_by_specificity" "n \<in> set keys_by_specificity"
    "n \<notin> set (takeWhile (\<lambda>x. x \<noteq> k) keys_by_specificity)"
  shows "length n \<le> length k"
  using keys_sorted assms by (rule later_in_sorted)

text \<open>
  C2, as amended. For every canonical key \<open>k\<close> with rates \<open>r\<close> and every suffix \<open>s\<close>, the
  resolver gives \<open>r\<close> for \<open>k @ s\<close>, provided no key that stands before \<open>k\<close> in
  \<open>keys_by_specificity\<close> (a longer key, or one as long that the table lists earlier) occurs
  in the normalised name.
\<close>

theorem suffixed_key_resolves:
  assumes "map_of PRICING k = Some r"
    and "\<forall>k'\<in>set (takeWhile (\<lambda>x. x \<noteq> k) keys_by_specificity).
           \<not> str_contains (normalize_model_name (k @ s)) k'"
  shows "get_model_pricing (k @ s) = Inr r"
proof -
  let ?n = "normalize_model_name (k @ s)"
  let ?pre = "takeWhile (\<lambda>x. x \<noteq> k) keys_by_specificity"
  from assms(1) have key: "k \<in> set (map fst PRICING)"
    by (metis map_of_eq_None_iff option.distinct(1) set_map)
  then have inks: "k \<in> set keys_by_specificity" by (simp only: keys_set)
  have pre: "prefix k ?n"
    using key by (simp only: normalize_suffixed canonical_keys_clean)
  have "resolve_model_key (k @ s) = Inr k"
  proof (cases "?n \<in> set (map fst PRICING)")
    case True
    then have n_in: "?n \<in> set keys_by_specificity" by (simp only: keys_set)
    have "?n \<notin> set ?pre" using assms(2) str_contains_refl by blast
    with inks n_in have "length ?n \<le> length k" by (rule later_key_not_longer)
    with pre have "?n = k"
      by (rule prefix_not_shorter)
    with True show ?thesis by (simp add: resolve_model_key_def)
  next
    case False
    from split_at_key [OF inks] obtain rest
      where "keys_by_specificity = ?pre @ k # rest" by blast
    then have "key_scan keys_by_specificity ?n = key_scan (?pre @ k # rest) ?n"
      by simp
    also have "\<dots> = key_scan (k # rest) ?n"
      using assms(2) by (rule key_scan_skip)
    also have "\<dots> = Some k" using pre by (simp add: startswith_def)
    finally show ?thesis
      using False alias_scan_none [OF key pre] by (simp add: resolve_model_key_def)
  qed
  with assms(1) show ?thesis by (simp add: get_model_pricing_def)
qed

theorem suffixed_key_resolves_witness:
  "map_of PRICING ''gpt-4'' = Some (30, 60) \<and>
   list_all (\<lambda>k'. \<not> str_contains (normalize_model_name (''gpt-4'' @ ''-0125-preview'')) k')
     (takeWhile (\<lambda>x. x \<noteq> ''gpt-4'') keys_by_specificity) \<and>
   get_model_pricing (''gpt-4'' @ ''-0125-preview'') = Inr (30, 60)"
proof -
  have a: "map_of PRICING ''gpt-4'' = Some (30, 60)"
    by (simp add: PRICING_def)
  have n: "normalize_model_name (''gpt-4'' @ ''-0125-preview'') = ''gpt-4-0125-preview''"
    by (simp add: normalize_model_name_def strip_def lower_def replace_char_def isspace_def
          is_upper_char_def)
  have b: "\<forall>k'\<in>set (takeWhile (\<lambda>x. x \<noteq> ''gpt-4'') keys_by_specificity).
             \<not> str_contains (normalize_model_name (''gpt-4'' @ ''-0125-preview'')) k'"
    unfolding n by (simp add: keys_by_specificity_eq)
  from suffixed_key_resolves [OF a b] a b show ?thesis
    by (simp add: list_all_iff)
qed

text \<open>
  C2 as stated fails: \<^verbatim>\<open>gpt-4\<close> followed by \<^verbatim>\<open>-turbo-2024-04-09\<close> resolves to the rates
  of the longer key \<^verbatim>\<open>gpt-4-turbo\<close>, not to those of \<^verbatim>\<open>gpt-4\<close>.
\<close>

theorem suffixed_key_counterexample:
  "map_of PRICING ''gpt-4'' = Some (30, 60) \<and>
   get_model_pricing (''gpt-4'' @ ''-turbo-2024-04-09'') = Inr (10, 30) \<and>
   get_model_pricing (''gpt-4'' @ ''-turbo-2024-04-09'') \<noteq> Inr (30, 60)"
  by (simp add: resolver_eval)

section \<open>The cost calculator\<close>



section \<open>Negative counts\<close>

text \<open>
  C4. With a negative \<open>tokens_in\<close> or \<open>tokens_out\<close> the calculator fails with
  \<open>InvalidTokenCount\<close>, whatever the model; with a negative \<open>tokens_in\<close>, \<open>tokens_out\<close> or
  \<open>latency_ms\<close> the manual entry fails with \<open>InvalidTokenCount\<close>, never with
  \<open>UnsupportedModel\<close>, and returns the globals, and with them the store, as they were: the
  resolver and \<^verbatim>\<open>get_storage\<close> are not reached.
\<close>

theorem negative_counts_rejected:
  "(n_in < 0 \<or> n_out < 0 \<longrightarrow>
      calculate_cost m n_in n_out = Inl (ValueError ''Token counts must be non-negative'')) \<and>
   (n_in < 0 \<or> n_out < 0 \<or> latency < 0 \<longrightarrow>
      (\<exists>e. track_manual now file g uid feat m n_in n_out latency md org = (Inl e, g) \<and>
           InvalidTokenCount e \<and> e \<noteq> UnsupportedModel m)) \<and>
   InvalidTokenCount (ValueError ''Token counts must be non-negative'') \<and>
   ValueError ''Token counts must be non-negative'' \<noteq> UnsupportedModel m"
  by (auto simp: calculate_cost_def track_manual_def InvalidTokenCount_def UnsupportedModel_def)

theorem negative_counts_rejected_witness:
  "calculate_cost ''not-a-real-model'' (- 1) 10
     = Inl (ValueError ''Token counts must be non-negative'') \<and>
   track_manual ''2024-05-01T10:00:00+00:00'' empty_database initial_tracker
      ''alice'' ''chat'' ''not-a-real-model'' (- 1) 10 0 None None
     = (Inl (ValueError ''tokens_in and tokens_out must be non-negative''), initial_tracker) \<and>
   snd (track_manual ''2024-05-01T10:00:00+00:00'' empty_database initial_tracker
      ''alice'' ''chat'' ''gpt-4o'' 1 10 (- 5) None None) = initial_tracker \<and>
   fst (track_manual ''2024-05-01T10:00:00+00:00'' empty_database initial_tracker
      ''alice'' ''chat'' ''gpt-4o'' 1 10 (- 5) None None)
     = Inl (ValueError ''latency_ms must be non-negative'')"
proof -
  have "(- 1 :: int) < 0 \<or> (10 :: int) < 0" by simp
  with negative_counts_rejected [of "- 1" 10 "''not-a-real-model''"]
  have a: "calculate_cost ''not-a-real-model'' (- 1) 10
      = Inl (ValueError ''Token counts must be non-negative'')"
    by blast
  have "(1 :: int) < 0 \<or> (10 :: int) < 0 \<or> (- 5 :: int) < 0" by simp
  with negative_counts_rejected [of 1 10 "''gpt-4o''" "- 5" "''2024-05-01T10:00:00+00:00''"
      empty_database initial_tracker "''alice''" "''chat''" None None]
  obtain e where "track_manual ''2024-05-01T10:00:00+00:00'' empty_database initial_tracker
      ''alice'' ''chat'' ''gpt-4o'' 1 10 (- 5) None None = (Inl e, initial_tracker)"
    by blast
  then have b: "snd (track_manual ''2024-05-01T10:00:00+00:00'' empty_database initial_tracker
      ''alice'' ''chat'' ''gpt-4o'' 1 10 (- 5) None None) = initial_tracker"
    by simp
  have c: "track_manual ''2024-05-01T10:00:00+00:00'' empty_database initial_tracker
      ''alice'' ''chat'' ''not-a-real-model'' (- 1) 10 0 None None
     = (Inl (ValueError ''tokens_in and tokens_out must be non-negative''), initial_tracker)"
    by (simp add: track_manual_def)
  have d: "fst (track_manual ''2024-05-01T10:00:00+00:00'' empty_database initial_tracker
      ''alice'' ''chat'' ''gpt-4o'' 1 10 (- 5) None None)
     = Inl (ValueError ''latency_ms must be non-negative'')"
    by (simp add: track_manual_def)
  from a b c d show ?thesis by blast
qed

section \<open>Schema creation\<close>

lemma create_table_rows:
  "cost_logs db = Some rows \<Longrightarrow> create_table_if_not_exists db = db"
  by (simp add: create_table_if_not_exists_def)

lemma create_table_present: "cost_logs (create_table_if_not_exists db) \<noteq> None"
  by (simp add: create_table_if_not_exists_def split: option.splits)

lemma create_index_cost_logs [simp]:
  "cost_logs (create_index_if_not_exists name db) = cost_logs db"
  by (simp add: create_index_if_not_exists_def)

lemma create_index_sequence [simp]:
  "sequence (create_index_if_not_exists name db) = sequence db"
  by (simp add: create_index_if_not_exists_def)

lemma create_index_present:
  "name \<in> set (indexes db) \<Longrightarrow> create_index_if_not_exists name db = db"
  by (simp add: create_index_if_not_exists_def)

lemma create_index_indexes:
  "set (indexes (create_index_if_not_exists name db)) = insert name (set (indexes db))"
  by (auto simp: create_index_if_not_exists_def)

lemma init_db_ready: "ready (init_db self)"
  by (simp add: ready_def init_db_def create_index_indexes create_table_present)

lemma init_db_noop:
  assumes "ready self"
  shows "init_db self = self"
proof -
  from assms obtain rows where "cost_logs (conn self) = Some rows"
    by (auto simp: ready_def)
  then have "create_table_if_not_exists (conn self) = conn self"
    by (rule create_table_rows)
  moreover from assms have
    "''idx_cost_logs_user_id'' \<in> set (indexes (conn self))"
    "''idx_cost_logs_feature'' \<in> set (indexes (conn self))"
    "''idx_cost_logs_timestamp'' \<in> set (indexes (conn self))"
    "''idx_cost_logs_org_id'' \<in> set (indexes (conn self))"
    by (simp_all add: ready_def)
  ultimately show ?thesis
    by (simp add: init_db_def create_index_present)
qed

lemma init_db_rows:
  "cost_logs (conn self) = Some rows \<Longrightarrow> cost_logs (conn (init_db self)) = Some rows"
  by (simp add: init_db_def create_table_rows)

lemma init_db_sequence: "sequence (conn (init_db self)) = sequence (conn self)"
  by (simp add: init_db_def create_table_if_not_exists_def split: option.splits)

lemma init_db_path: "db_path (init_db self) = db_path self"
  by (simp add: init_db_def)

text \<open>
  C8. Schema creation is idempotent: run on a store, it leaves a ready store, and running it
  again changes nothing; on a store that has its table it keeps every row, and the counter of
  ids, as they are; on a ready store it changes nothing at all.
\<close>

theorem init_db_idempotent:
  "init_db (init_db self) = init_db self \<and>
   ready (init_db self) \<and>
   (ready self \<longrightarrow> init_db self = self) \<and>
   (cost_logs (conn self) = Some rows \<longrightarrow>
      cost_logs (conn (init_db self)) = Some rows \<and>
      sequence (conn (init_db self)) = sequence (conn self))"
  using init_db_ready init_db_noop init_db_rows init_db_sequence by blast

section \<open>The scenario, evaluated\<close>

lemma log_row_rows:
  assumes "cost_logs (conn self) = Some rows"
  shows "log_row self c =
           (if storable c
            then Inr (self\<lparr>conn := (conn self)
                   \<lparr>cost_logs := Some (rows @ [\<lparr>row_id = next_id rows (sequence (conn self)), entry = c\<rparr>]),
                    sequence := next_id rows (sequence (conn self))\<rparr>\<rparr>)
            else Inl int_too_large)"
  using assms by (simp add: log_row_def storable_def Let_def)

lemma scenario_storable: "storable alice_chat \<and> storable bob_summary \<and> storable alice_summary"
  by (simp add: storable_def fits_int64_def alice_chat_def bob_summary_def alice_summary_def)

lemma scenario_store_eq:
  "scenario_store =
     \<lparr>db_path = ''costs.db'',
      conn = \<lparr>cost_logs = Some scenario_rows,
              indexes = [''idx_cost_logs_user_id'', ''idx_cost_logs_feature'',
                         ''idx_cost_logs_timestamp'', ''idx_cost_logs_org_id''],
              sequence = 3\<rparr>\<rparr>"
  by (simp add: scenario_store_def log_all_def SQLiteStorage_init_def init_db_def
        empty_database_def create_table_if_not_exists_def create_index_if_not_exists_def
        log_row_rows scenario_storable next_id_def scenario_rows_def)

lemma scenario_table: "cost_logs (conn scenario_store) = Some scenario_rows"
  by (simp add: scenario_store_eq)

lemma scenario_ready: "ready scenario_store"
  by (simp add: scenario_store_eq ready_def)

lemmas scenario_eval =
  scenario_rows_def alice_chat_def bob_summary_def alice_summary_def




theorem init_db_idempotent_witness:
  "ready scenario_store \<and>
   cost_logs (conn scenario_store) = Some scenario_rows \<and>
   init_db scenario_store = scenario_store \<and>
   cost_logs (conn (init_db scenario_store)) = Some scenario_rows \<and>
   length scenario_rows = 3"
  using init_db_idempotent [of scenario_store scenario_rows] scenario_ready scenario_table
  by (simp add: scenario_rows_def)

section \<open>The WHERE clause\<close>

lemma coalesce_sum: "coalesce (sql_sum xs) 0 = sum_list xs"
  by (simp add: coalesce_def sql_sum_def)

lemma dict_get_nil [simp]: "dict_get [] name = PyNone"
  by (simp add: dict_get_def)

lemma simple_clauses_hold:
  "list_all (holds r) (simple_clauses names f) =
     list_all (\<lambda>name. case dict_get f name of PyNone \<Rightarrow> True | PyStr v \<Rightarrow> column name r = v) names"
  by (induction names) (simp_all split: pyval.splits)

lemma clauses_match_spec:
  "list_all (holds r) (build_where_clause filters) = matches_spec filters r"
proof (cases filters)
  case None
  then show ?thesis
    by (simp add: build_where_clause_def matches_spec_def supplied_def)
next
  case (Some f)
  show ?thesis
  proof (cases "f = []")
    case True
    with Some show ?thesis
      by (simp add: build_where_clause_def matches_spec_def supplied_def)
  next
    case False
    with Some show ?thesis
      by (simp add: build_where_clause_def matches_spec_def supplied_def simple_clauses_hold
            simple_fields_def column_def split: pyval.splits)
  qed
qed

lemma where_rows_spec:
  "where_rows (build_where_clause filters) rows = filter (\<lambda>r. matches_spec filters (entry r)) rows"
  by (simp add: where_rows_def clauses_match_spec)






section \<open>Append and the total cost\<close>

lemma store_after_prefix:
  assumes "cost_logs (conn self) = Some rows"
  shows "\<exists>new. cost_logs (conn (store_after self op)) = Some (rows @ new) \<and>
           map entry new = (case op of Log c \<Rightarrow> if storable c then [c] else [] | _ \<Rightarrow> [])"
proof (cases op)
  case (Log c)
  with assms show ?thesis by (simp add: log_row_rows)
next
  case InitDb
  with assms show ?thesis by (simp add: init_db_rows)
qed (use assms in simp_all)

lemma run_prefix:
  "cost_logs (conn self) = Some rows \<Longrightarrow>
   \<exists>new. cost_logs (conn (foldl store_after self ops)) = Some (rows @ new)"
proof (induction ops arbitrary: self rows)
  case Nil
  then show ?case by simp
next
  case (Cons op ops)
  from store_after_prefix [OF Cons.prems, of op] obtain new1
    where 1: "cost_logs (conn (store_after self op)) = Some (rows @ new1)" by blast
  from Cons.IH [OF 1] obtain new2
    where "cost_logs (conn (foldl store_after (store_after self op) ops)) = Some ((rows @ new1) @ new2)"
    by blast
  then show ?case by simp
qed

lemma log_all_entries:
  "cost_logs (conn self) = Some rows \<Longrightarrow>
   \<exists>rows'. cost_logs (conn (log_all self cs)) = Some rows' \<and>
           map entry rows' = map entry rows @ filter storable cs"
proof (induction cs arbitrary: self rows)
  case Nil
  then show ?case by (simp add: log_all_def)
next
  case (Cons c cs)
  from store_after_prefix [OF Cons.prems, of "Log c"] obtain new
    where 1: "cost_logs (conn (store_after self (Log c))) = Some (rows @ new)"
      and 2: "map entry new = (if storable c then [c] else [])" by auto
  from Cons.IH [OF 1] obtain rows'
    where "cost_logs (conn (log_all (store_after self (Log c)) cs)) = Some rows'"
      and "map entry rows' = map entry (rows @ new) @ filter storable cs" by blast
  with 2 show ?case by (simp add: log_all_def)
qed

lemma get_total_cost_rows:
  "cost_logs (conn self) = Some rows \<Longrightarrow>
   get_total_cost self filters =
     Inr (sum_list (map (\<lambda>r. cost_usd (entry r)) (where_rows (build_where_clause filters) rows)))"
  by (simp add: get_total_cost_def coalesce_sum)

lemma where_rows_nil [simp]: "where_rows [] rows = rows"
  by (simp add: where_rows_def)

lemma new_store_rows: "cost_logs (conn (SQLiteStorage_init path empty_database)) = Some []"
  by (simp add: SQLiteStorage_init_def init_db_def empty_database_def
        create_table_if_not_exists_def)

text \<open>
  C5. After any sequence of calls to \<^verbatim>\<open>log\<close> on a new store, the total cost without
  filters is the sum of \<^verbatim>\<open>cost_usd\<close> over the records that were appended, that is those
  \<^verbatim>\<open>log\<close> accepted (it refuses a record whose integers do not fit SQLite's \<^verbatim>\<open>INTEGER\<close>);
  and when no row matches the filters the total is 0, not a failure. (Floats are exact reals
  here, so the sum is exact.)
\<close>

theorem total_cost_is_sum:
  "get_total_cost (log_all (SQLiteStorage_init path empty_database) cs) None
     = Inr (sum_list (map cost_usd (filter storable cs))) \<and>
   (cost_logs (conn self) = Some rows \<and> where_rows (build_where_clause filters) rows = [] \<longrightarrow>
      get_total_cost self filters = Inr 0)"
proof -
  from log_all_entries [OF new_store_rows, of path cs] obtain rows'
    where 1: "cost_logs (conn (log_all (SQLiteStorage_init path empty_database) cs)) = Some rows'"
      and 2: "map entry rows' = filter storable cs" by auto
  have "map (\<lambda>r. cost_usd (entry r)) rows' = map cost_usd (map entry rows')"
    by simp
  with 1 2 have "get_total_cost (log_all (SQLiteStorage_init path empty_database) cs) None
     = Inr (sum_list (map cost_usd (filter storable cs)))"
    by (simp add: get_total_cost_rows build_where_clause_def del: map_map)
  then show ?thesis
    by (auto simp: get_total_cost_rows)
qed

theorem total_cost_is_sum_witness:
  "get_total_cost scenario_store None = Inr 0.00169 \<and>
   where_rows (build_where_clause (Some [(''org_id'', PyStr ''org-2'')])) scenario_rows = [] \<and>
   get_total_cost scenario_store (Some [(''org_id'', PyStr ''org-2'')]) = Inr 0"
proof -
  have none: "where_rows (build_where_clause (Some [(''org_id'', PyStr ''org-2'')])) scenario_rows = []"
    by (simp add: where_rows_spec matches_spec_def supplied_def dict_get_def scenario_eval)
  from total_cost_is_sum [of "''costs.db''" "[alice_chat, bob_summary, alice_summary]"
      scenario_store scenario_rows "Some [(''org_id'', PyStr ''org-2'')]"]
  have sum: "get_total_cost scenario_store None
      = Inr (sum_list (map cost_usd (filter storable [alice_chat, bob_summary, alice_summary])))"
    and zero: "cost_logs (conn scenario_store) = Some scenario_rows \<and>
       where_rows (build_where_clause (Some [(''org_id'', PyStr ''org-2'')])) scenario_rows = []
       \<longrightarrow> get_total_cost scenario_store (Some [(''org_id'', PyStr ''org-2'')]) = Inr 0"
    unfolding scenario_store_def by blast+
  have "sum_list (map cost_usd (filter storable [alice_chat, bob_summary, alice_summary]))
      = 0.00169"
    by (simp add: scenario_storable) (simp add: scenario_eval)
  with sum zero none scenario_table show ?thesis by simp
qed

section \<open>Persisted rows stay as they were written\<close>

text \<open>
  C9. Whatever calls are made on a storage object, the rows its table held before are an
  initial segment of the rows it holds after: none is changed, removed or moved. A call to
  \<^verbatim>\<open>log\<close> that succeeds puts exactly one row after them; the three queries return the
  store they were given; the interface has no operation that updates.
\<close>

theorem persisted_rows_unchanged:
  assumes "cost_logs (conn self) = Some rows"
  shows "(\<exists>rows'. cost_logs (conn (foldl store_after self ops)) = Some rows' \<and>
                  prefix rows rows') \<and>
         (storable c \<longrightarrow>
            cost_logs (conn (store_after self (Log c)))
              = Some (rows @ [\<lparr>row_id = next_id rows (sequence (conn self)), entry = c\<rparr>])) \<and>
         store_after self (GetTotalCost filters) = self \<and>
         store_after self (GetTopUsers limit filters) = self \<and>
         store_after self (GetTopFeatures limit filters) = self"
proof -
  from run_prefix [OF assms, of ops] obtain new
    where "cost_logs (conn (foldl store_after self ops)) = Some (rows @ new)" by blast
  then have "\<exists>rows'. cost_logs (conn (foldl store_after self ops)) = Some rows' \<and>
                  prefix rows rows'"
    by simp
  then show ?thesis
    using assms by (simp add: log_row_rows)
qed

theorem persisted_rows_unchanged_witness:
  "cost_logs (conn scenario_store) = Some scenario_rows \<and>
   prefix scenario_rows
     (the (cost_logs (conn (foldl store_after scenario_store
        [GetTotalCost None, Log bob_summary, InitDb, GetTopUsers 1 None,
         GetTopFeatures (- 1) None])))) \<and>
   cost_logs (conn (store_after scenario_store (Log bob_summary)))
     = Some (scenario_rows @ [\<lparr>row_id = 4, entry = bob_summary\<rparr>])"
proof -
  from persisted_rows_unchanged [OF scenario_table,
      of "[GetTotalCost None, Log bob_summary, InitDb, GetTopUsers 1 None,
           GetTopFeatures (- 1) None]" bob_summary]
  obtain rows' where
    "cost_logs (conn (foldl store_after scenario_store
        [GetTotalCost None, Log bob_summary, InitDb, GetTopUsers 1 None,
         GetTopFeatures (- 1) None])) = Some rows'"
    and "prefix scenario_rows rows'"
    and "storable bob_summary \<longrightarrow>
           cost_logs (conn (store_after scenario_store (Log bob_summary)))
             = Some (scenario_rows @
                 [\<lparr>row_id = next_id scenario_rows (sequence (conn scenario_store)),
                   entry = bob_summary\<rparr>])"
    by blast
  moreover have "next_id scenario_rows (sequence (conn scenario_store)) = 4"
    by (simp add: next_id_def scenario_store_eq) (simp add: scenario_rows_def)
  ultimately show ?thesis
    using scenario_table scenario_storable by simp
qed

section \<open>The rankings\<close>





lemma order_by_set [simp]: "set (order_by_total_desc gs) = set gs"
  by (simp add: order_by_total_desc_def)

lemma order_by_length [simp]: "length (order_by_total_desc gs) = length gs"
  by (simp add: order_by_total_desc_def)









section \<open>The manual entry\<close>

lemma init_db_table: "cost_logs (conn (init_db self)) \<noteq> None"
  using init_db_ready [of self] by (simp add: ready_def)

lemma get_storage_table:
  assumes "tracker_ok g"
  shows "\<exists>rows. cost_logs (conn (fst (get_storage file g))) = Some rows \<and>
           persisted (snd (get_storage file g)) = map entry rows \<and>
           tracker_org_id (snd (get_storage file g)) = tracker_org_id g"
proof (cases "tracker_storage g")
  case None
  obtain rows where "cost_logs (conn (SQLiteStorage_init ''ai_cost_tracker.db'' file)) = Some rows"
    using init_db_table by (fastforce simp: SQLiteStorage_init_def)
  with None show ?thesis
    by (simp add: get_storage_def persisted_def Let_def)
next
  case (Some s)
  with assms obtain rows where "cost_logs (conn s) = Some rows"
    by (auto simp: tracker_ok_def)
  with Some show ?thesis
    by (simp add: get_storage_def persisted_def)
qed

text \<open>
  C10, as amended. When the counts are not negative and fit SQLite's \<^verbatim>\<open>INTEGER\<close> and the
  model resolves, the manual entry returns a record whose fields are the arguments, whose
  cost is the calculator's, whose timestamp is the current time, whose metadata is the
  argument or the empty dictionary when that is \<^verbatim>\<open>None\<close> or empty, and whose \<^verbatim>\<open>org_id\<close> is
  the argument, or the configured default when the argument is \<^verbatim>\<open>None\<close> or the empty
  string; that record is the last row of the active store. The record has an empty
  \<^verbatim>\<open>org_id\<close> exactly when the argument is falsy and the configured default is itself empty.
\<close>

theorem track_manual_record:
  assumes "tracker_ok g"
    and "0 \<le> n_in" "0 \<le> n_out" "0 \<le> latency"
    and "fits_int64 n_in" "fits_int64 n_out" "fits_int64 latency"
    and "calculate_cost m n_in n_out = Inr c"
  shows "\<exists>e g'. track_manual now file g uid feat m n_in n_out latency md org = (Inr e, g') \<and>
           e = \<lparr>user_id = uid, feature = feat, model = m, tokens_in = n_in, tokens_out = n_out,
                cost_usd = c, latency_ms = latency, timestamp = now,
                org_id = (if org = None \<or> org = Some [] then tracker_org_id g else the org),
                metadata = (case md of None \<Rightarrow> [] | Some d \<Rightarrow> d)\<rparr> \<and>
           persisted g' = persisted (snd (get_storage file g)) @ [e] \<and>
           tracker_org_id g' = tracker_org_id g \<and> tracker_ok g' \<and>
           (org_id e = [] \<longleftrightarrow> (org = None \<or> org = Some []) \<and> tracker_org_id g = [])"
proof -
  let ?e = "\<lparr>user_id = uid, feature = feat, model = m, tokens_in = n_in, tokens_out = n_out,
                cost_usd = c, latency_ms = latency, timestamp = now,
                org_id = or_default org (tracker_org_id g),
                metadata = or_default md []\<rparr>"
  obtain s g1 where gs: "get_storage file g = (s, g1)" by (cases "get_storage file g")
  from get_storage_table [OF assms(1), of "file"] gs obtain rows
    where rows: "cost_logs (conn s) = Some rows" and p: "persisted g1 = map entry rows"
      and o: "tracker_org_id g1 = tracker_org_id g"
    by auto
  have st: "storable ?e" using assms(5-7) by (simp add: storable_def)
  have org: "or_default org (tracker_org_id g) =
      (if org = None \<or> org = Some [] then tracker_org_id g else the org)"
    by (auto simp: or_default_def split: option.splits)
  have md: "or_default md [] = (case md of None \<Rightarrow> [] | Some d \<Rightarrow> d)"
    by (auto simp: or_default_def split: option.splits)
  have "track_manual now file g uid feat m n_in n_out latency md org =
          (Inr ?e, g1\<lparr>tracker_storage := Some (s\<lparr>conn := (conn s)
                   \<lparr>cost_logs := Some (rows @ [\<lparr>row_id = next_id rows (sequence (conn s)), entry = ?e\<rparr>]),
                    sequence := next_id rows (sequence (conn s))\<rparr>\<rparr>)\<rparr>)"
    using assms(2-4,8) gs st by (simp add: track_manual_def log_row_rows [OF rows] Let_def)
  moreover have "org_id ?e = [] \<longleftrightarrow> (org = None \<or> org = Some []) \<and> tracker_org_id g = []"
    by (auto simp: or_default_def split: option.splits)
  ultimately show ?thesis
    using p o gs by (simp add: org md persisted_def tracker_ok_def)
qed

lemma init_tracker_ok: "tracker_ok (snd (init_tracker path org file))"
  using init_db_table by (simp add: init_tracker_def tracker_ok_def SQLiteStorage_init_def Let_def)

theorem track_manual_record_witness:
  "tracker_ok initial_tracker \<and>
   calculate_cost ''gpt-4o'' 100 200 = Inr 0.0035 \<and>
   fst (track_manual ''2024-05-01T10:00:00+00:00'' empty_database initial_tracker
          ''alice'' ''chat'' ''gpt-4o'' 100 200 0 None (Some []))
     = Inr \<lparr>user_id = ''alice'', feature = ''chat'', model = ''gpt-4o'', tokens_in = 100,
            tokens_out = 200, cost_usd = 0.0035, latency_ms = 0,
            timestamp = ''2024-05-01T10:00:00+00:00'', org_id = ''default'', metadata = []\<rparr>"
proof -
  have ok: "tracker_ok initial_tracker"
    by (simp add: tracker_ok_def initial_tracker_def)
  have c: "calculate_cost ''gpt-4o'' 100 200 = Inr 0.0035"
    by (simp add: calculate_cost_def resolver_eval)
  have fits: "fits_int64 100" "fits_int64 200" "fits_int64 0"
    by (simp_all add: fits_int64_def)
  have pos: "(0::int) \<le> 100" "(0::int) \<le> 200" "(0::int) \<le> 0"
    by simp_all
  from track_manual_record [OF ok pos fits c, of "''2024-05-01T10:00:00+00:00''"
      empty_database "''alice''" "''chat''" None "Some []"]
  have "fst (track_manual ''2024-05-01T10:00:00+00:00'' empty_database initial_tracker
          ''alice'' ''chat'' ''gpt-4o'' 100 200 0 None (Some []))
     = Inr \<lparr>user_id = ''alice'', feature = ''chat'', model = ''gpt-4o'', tokens_in = 100,
            tokens_out = 200, cost_usd = 0.0035, latency_ms = 0,
            timestamp = ''2024-05-01T10:00:00+00:00'', org_id = ''default'', metadata = []\<rparr>"
    by (auto simp: initial_tracker_def)
  with ok c show ?thesis by blast
qed

text \<open>
  C10 as stated fails when the tracker was initialised with an empty default: the empty
  \<^verbatim>\<open>org_id\<close> passed to the manual entry is replaced by the empty default, and the record
  persisted carries an empty \<^verbatim>\<open>org_id\<close>.
\<close>

theorem track_manual_org_counterexample:
  "tracker_org_id (snd (init_tracker ''costs.db'' [] empty_database)) = [] \<and>
   map org_id (persisted (snd (track_manual ''2024-05-01T10:00:00+00:00'' empty_database
       (snd (init_tracker ''costs.db'' [] empty_database))
       ''alice'' ''chat'' ''gpt-4o'' 100 200 0 None (Some [])))) = [[]]"
proof -
  have "calculate_cost ''gpt-4o'' 100 200 = Inr 0.0035"
    by (simp add: calculate_cost_def resolver_eval)
  then show ?thesis
    by (simp add: track_manual_def init_tracker_def get_storage_def SQLiteStorage_init_def
          init_db_def empty_database_def create_table_if_not_exists_def
          create_index_if_not_exists_def log_row_def fits_int64_def or_default_def
          persisted_def next_id_def Let_def)
qed

end
